theory Spec2Isabelle
  imports Main "HOL-Library.Word" "HOL-Library.Sublist" "HOL-Library.Multiset"
begin

section \<open>Strings and values of the host language\<close>

text \<open>
  A string of the source language is a finite sequence of 16-bit code units;
  \<open>includes\<close> and \<open>trim\<close> work on code units, and every character that
  \<open>trim\<close> removes is a single code unit.
\<close>

type_synonym jsstring = "16 word list"

text \<open>The code units of a string literal whose characters are all ASCII.\<close>

definition utf16 :: "string \<Rightarrow> jsstring" where
  "utf16 s = map of_char s"

text \<open>White space and line terminators, the characters \<open>String.prototype.trim\<close> strips.\<close>

definition isWhiteSpace :: "16 word \<Rightarrow> bool" where
  "isWhiteSpace c \<longleftrightarrow>
     c \<in> set [0x9, 0xA, 0xB, 0xC, 0xD, 0x20, 0xA0, 0x1680, 0x2028, 0x2029,
                0x202F, 0x205F, 0x3000, 0xFEFF]
     \<or> (0x2000 \<le> c \<and> c \<le> 0x200A)"

definition trim :: "jsstring \<Rightarrow> jsstring" where
  "trim s = rev (dropWhile isWhiteSpace (rev (dropWhile isWhiteSpace s)))"

text \<open>\<open>s.includes(q)\<close>: \<open>q\<close> occurs in \<open>s\<close> as a contiguous run of code units.\<close>

fun str_includes :: "jsstring \<Rightarrow> jsstring \<Rightarrow> bool" where
  "str_includes [] q = (q = [])"
| "str_includes (c # s) q = (prefix q (c # s) \<or> str_includes s q)"

text \<open>
  \<open>String.prototype.toLowerCase\<close> belongs to the language runtime, not to the
  plugin; the functions below take it as the parameter \<open>toLowerCase\<close>. On strings of
  ASCII code units it is the following function, which instantiates the parameter
  wherever a concrete evaluation is needed.
\<close>

definition toLowerCase_ascii :: "jsstring \<Rightarrow> jsstring" where
  "toLowerCase_ascii s = map (\<lambda>c. if 0x41 \<le> c \<and> c \<le> 0x5A then c + 0x20 else c) s"








text \<open>
  Values of type \<open>any\<close>, as far as the plugin tells them apart: \<open>Ref num gen\<close> is a
  page reference object of the PDF library, numbers are integers.
\<close>

datatype jsval =
    Undefined
  | Null
  | Bool bool
  | Num int
  | Str jsstring
  | Arr "jsval list"
  | Ref nat nat

text \<open>The truthiness test of \<open>if (v)\<close>.\<close>

fun truthy :: "jsval \<Rightarrow> bool" where
  "truthy Undefined = False"
| "truthy Null = False"
| "truthy (Bool b) = b"
| "truthy (Num n) = (n \<noteq> 0)"
| "truthy (Str s) = (s \<noteq> [])"
| "truthy (Arr a) = True"
| "truthy (Ref n g) = True"

datatype error = Error string


section \<open>The outline structure (types.ts)\<close>

datatype PDFOutlineItem =
  PDFOutlineItem (title: jsstring) (page: int) (children: "PDFOutlineItem list") (dest: jsval)

lemma children_smaller:
  "item \<in> set items \<Longrightarrow> size_list size (children item) < size_list size items"
proof -
  assume mem: "item \<in> set items"
  have "size_list size (children item) < size item"
    by (cases item) simp
  also have "size item \<le> size_list size items"
    using mem by (simp add: size_list_estimation')
  finally show ?thesis .
qed


section \<open>The outline view (view.ts)\<close>

subsection \<open>Search filter\<close>

text \<open>
  \<open>filterOutline\<close> reads the field \<open>searchQuery\<close> of the view; here it is the
  second argument. The \<open>forEach\<close> loop that pushes onto \<open>filtered\<close> is the left
  fold over \<open>items\<close>.
\<close>

function filterOutline ::
  "(jsstring \<Rightarrow> jsstring) \<Rightarrow> jsstring \<Rightarrow> PDFOutlineItem list \<Rightarrow> PDFOutlineItem list" where
  "filterOutline toLowerCase searchQuery items =
     (if trim searchQuery = [] then items
      else
        let query = toLowerCase searchQuery in
        foldl (\<lambda>filtered item.
                 let matches = str_includes (toLowerCase (title item)) query;
                     filteredChildren = filterOutline toLowerCase searchQuery (children item)
                 in if matches \<or> length filteredChildren > 0
                    then filtered @ [PDFOutlineItem (title item) (page item) filteredChildren (dest item)]
                    else filtered)
              [] items)"
  by pat_completeness auto
termination
  by (relation "measure (\<lambda>(lc, q, items). size_list size items)") (auto simp: children_smaller)

declare filterOutline.simps [simp del]

text \<open>
  The same function, recording in a second component every item the loop body runs
  on, in the order in which it runs.
\<close>

function filterOutline_visits ::
  "(jsstring \<Rightarrow> jsstring) \<Rightarrow> jsstring \<Rightarrow> PDFOutlineItem list
     \<Rightarrow> PDFOutlineItem list \<times> PDFOutlineItem list" where
  "filterOutline_visits toLowerCase searchQuery items =
     (if trim searchQuery = [] then (items, [])
      else
        let query = toLowerCase searchQuery in
        foldl (\<lambda>acc item.
                 let matches = str_includes (toLowerCase (title item)) query;
                     below = filterOutline_visits toLowerCase searchQuery (children item);
                     filteredChildren = fst below
                 in (if matches \<or> length filteredChildren > 0
                     then fst acc @ [PDFOutlineItem (title item) (page item) filteredChildren (dest item)]
                     else fst acc,
                     snd acc @ [item] @ snd below))
              ([], []) items)"
  by pat_completeness auto
termination
  by (relation "measure (\<lambda>(lc, q, items). size_list size items)") (auto simp: children_smaller)

declare filterOutline_visits.simps [simp del]


subsection \<open>What the search filter is to compute\<close>


fun descendants :: "PDFOutlineItem \<Rightarrow> PDFOutlineItem list" where
  "descendants (PDFOutlineItem t p cs d) = concat (map (\<lambda>c. c # descendants c) cs)"





text \<open>All items of a forest, each before its descendants, siblings in order.\<close>

definition all_items :: "PDFOutlineItem list \<Rightarrow> PDFOutlineItem list" where
  "all_items items = concat (map (\<lambda>item. item # descendants item) items)"

text \<open>
  An item is identified by what the filter copies from it: title, page and
  destination. A chain is the list of these labels along a path from a top-level item
  down to some item; \<open>paths\<close> lists every chain of a forest.
\<close>

type_synonym label = "jsstring \<times> int \<times> jsval"

definition label :: "PDFOutlineItem \<Rightarrow> label" where
  "label item = (title item, page item, dest item)"

fun item_paths :: "PDFOutlineItem \<Rightarrow> label list list" where
  "item_paths (PDFOutlineItem t p cs d) =
     [(t, p, d)] # map ((#) (t, p, d)) (concat (map item_paths cs))"

definition paths :: "PDFOutlineItem list \<Rightarrow> label list list" where
  "paths items = concat (map item_paths items)"


subsection \<open>Rendering\<close>

text \<open>
  What the view's content element shows: nothing before the view is opened, the
  message for an empty outline, or the header (search field and toggle button) over
  the outline container. The container holds the message for an empty search result
  or the rendered items. Collapse state and styling are left out.
\<close>

datatype body = EmptyBody | NoMatchMessage | Tree "PDFOutlineItem list"

datatype content = Unopened | NoOutlineMessage | WithHeader body

record view_state =
  outlineItems :: "PDFOutlineItem list"
  searchQuery :: jsstring
  outlineContainer :: bool
  content :: content

text \<open>
  \<open>outlineContainer\<close> is \<open>True\<close> once the field holds an element. The element is
  on screen only under a header; writing to it after the content element has been
  emptied changes nothing that is shown.
\<close>

definition renderFilteredOutline :: "(jsstring \<Rightarrow> jsstring) \<Rightarrow> view_state \<Rightarrow> view_state" where
  "renderFilteredOutline toLowerCase v =
     (if \<not> outlineContainer v then v
      else
        let filtered = filterOutline toLowerCase (searchQuery v) (outlineItems v);
            shown = (if length filtered = 0 then NoMatchMessage else Tree filtered)
        in case content v of
             WithHeader b \<Rightarrow> v\<lparr>content := WithHeader shown\<rparr>
           | _ \<Rightarrow> v)"

definition displayOutline ::
  "(jsstring \<Rightarrow> jsstring) \<Rightarrow> PDFOutlineItem list \<Rightarrow> view_state \<Rightarrow> view_state" where
  "displayOutline toLowerCase outline v =
     (let v1 = v\<lparr>outlineItems := outline\<rparr> in
      if length outline = 0 then v1\<lparr>content := NoOutlineMessage\<rparr>
      else renderFilteredOutline toLowerCase
             (v1\<lparr>outlineContainer := True, content := WithHeader EmptyBody\<rparr>))"


text \<open>The view as its constructor leaves it.\<close>

definition new_view :: view_state where
  "new_view = \<lparr>outlineItems = [], searchQuery = [], outlineContainer = False, content = Unopened\<rparr>"


subsection \<open>Page navigation\<close>

text \<open>
  The parts of a workspace leaf and of its PDF view that \<open>navigateToPageInLeaf\<close>
  probes. A method field is \<open>True\<close> when \<open>typeof\<close> of the member is \<open>'function'\<close>;
  \<open>pdfViewer\<close> is \<open>None\<close> when the member is falsy, and \<open>currentPageNumber\<close> is
  \<open>None\<close> when its type is \<open>'undefined'\<close>; an element carries the first
  \<open>input[type="number"]\<close> below it, if there is one.
\<close>

record pdf_viewer =
  currentPageNumber :: "int option"

record element =
  numberInput :: "nat option"

record pdf_view =
  file_path :: "jsstring option"
  goToPage :: bool
  jumpToPage :: bool
  navigateToPage :: bool
  pdfViewer :: "pdf_viewer option"
  view_containerEl :: "element option"

record leaf =
  leaf_view :: "pdf_view option"
  leaf_containerEl :: "element option"

text \<open>
  What a call of \<open>navigateToPageInLeaf\<close> does to the outside, in order. A call of a
  method of the view is recorded, not followed into the host.
\<close>

datatype action =
    CallGoToPage int
  | CallJumpToPage int
  | CallNavigateToPage int
  | AssignCurrentPageNumber int
  | DriveInput nat int
  | Warn int jsstring

definition leaf_shows :: "jsstring \<Rightarrow> leaf \<Rightarrow> bool" where
  "leaf_shows path l =
     (case leaf_view l of None \<Rightarrow> False | Some v \<Rightarrow> file_path v = Some path)"

text \<open>
  The leaf the call works on: the one passed in, or else the first PDF leaf that shows
  the file, or else the first PDF leaf.
\<close>

definition target_leaf :: "leaf list \<Rightarrow> jsstring \<Rightarrow> leaf option \<Rightarrow> leaf option" where
  "target_leaf pdfLeaves path leafArg =
     (case leafArg of
        Some l \<Rightarrow> Some l
      | None \<Rightarrow>
         (case find (leaf_shows path) pdfLeaves of
            Some l \<Rightarrow> Some l
          | None \<Rightarrow> (case pdfLeaves of [] \<Rightarrow> None | l # rest \<Rightarrow> Some l)))"

definition navigateToPageInLeaf ::
  "leaf list \<Rightarrow> int \<Rightarrow> jsstring \<Rightarrow> leaf option \<Rightarrow> action list" where
  "navigateToPageInLeaf pdfLeaves pageNumber path leafArg =
     (case target_leaf pdfLeaves path leafArg of
        None \<Rightarrow> []
      | Some l \<Rightarrow>
         (case leaf_view l of
            None \<Rightarrow> []
          | Some pdfView \<Rightarrow>
             if goToPage pdfView then [CallGoToPage pageNumber]
             else if jumpToPage pdfView then [CallJumpToPage pageNumber]
             else if navigateToPage pdfView then [CallNavigateToPage pageNumber]
             else if (case pdfViewer pdfView of
                        None \<Rightarrow> False
                      | Some viewer \<Rightarrow> currentPageNumber viewer \<noteq> None)
               then [AssignCurrentPageNumber pageNumber]
             else
               (let pdfContainer =
                      (case view_containerEl pdfView of
                         Some el \<Rightarrow> Some el
                       | None \<Rightarrow> leaf_containerEl l)
                in case pdfContainer of
                     None \<Rightarrow> [Warn pageNumber path]
                   | Some el \<Rightarrow>
                      (case numberInput el of
                         Some pageInput \<Rightarrow> [DriveInput pageInput pageNumber]
                       | None \<Rightarrow> [Warn pageNumber path]))))"


section \<open>The outline parser (pdf-parser.ts)\<close>

text \<open>
  An outline node as the PDF library delivers it: a title string, a destination (a
  name, an explicit destination array, or \<open>null\<close>) and the child nodes.
\<close>

datatype outline_node =
  OutlineNode (node_title: jsstring) (node_dest: jsval) (node_items: "outline_node list")

text \<open>
  The calls of the library's document proxy. Each returns a promise; \<open>Inl\<close> is a
  rejection, which \<open>await\<close> throws.
\<close>

record pdfdoc =
  getOutline :: "error + outline_node list option"
  getDestination :: "jsstring \<Rightarrow> error + jsval"
  getPageIndex :: "jsval \<Rightarrow> error + int"

text \<open>
  The \<open>try\<close> block of \<open>resolveDestination\<close>: \<open>Inl\<close> when it throws, \<open>Inr None\<close>
  when control leaves it without a \<open>return\<close>. Destructuring \<open>[ref]\<close> from an empty
  array gives \<open>undefined\<close>.
\<close>

definition resolveDestination_try :: "pdfdoc \<Rightarrow> jsval \<Rightarrow> error + int option" where
  "resolveDestination_try doc dest0 =
     (case (case dest0 of Str name \<Rightarrow> getDestination doc name | _ \<Rightarrow> Inr dest0) of
        Inl e \<Rightarrow> Inl e
      | Inr dest1 \<Rightarrow>
         (case dest1 of
            Arr elems \<Rightarrow>
              (case getPageIndex doc (case elems of [] \<Rightarrow> Undefined | ref # rest \<Rightarrow> ref) of
                 Inl e \<Rightarrow> Inl e
               | Inr pageIndex \<Rightarrow> Inr (Some (pageIndex + 1)))
          | _ \<Rightarrow> Inr None))"

text \<open>The \<open>catch\<close> clause logs the error and falls through to \<open>return 1\<close>.\<close>

definition resolveDestination :: "pdfdoc \<Rightarrow> jsval \<Rightarrow> error + int" where
  "resolveDestination doc dest0 =
     (case resolveDestination_try doc dest0 of
        Inl e \<Rightarrow> Inr 1
      | Inr None \<Rightarrow> Inr 1
      | Inr (Some pageNumber) \<Rightarrow> Inr pageNumber)"

text \<open>
  \<open>Promise.all\<close> over promises that have settled: the values in order, or a
  rejection if one of them is rejected.
\<close>

fun promise_all :: "(error + 'a) list \<Rightarrow> error + 'a list" where
  "promise_all [] = Inr []"
| "promise_all (p # ps) =
     (case p of
        Inl e \<Rightarrow> Inl e
      | Inr v \<Rightarrow> (case promise_all ps of Inl e \<Rightarrow> Inl e | Inr vs \<Rightarrow> Inr (v # vs)))"

fun convertOutlineItemAsync :: "pdfdoc \<Rightarrow> outline_node \<Rightarrow> error + PDFOutlineItem" where
  "convertOutlineItemAsync doc (OutlineNode item_title item_dest item_items) =
     (case (if truthy item_dest then resolveDestination doc item_dest else Inr 1) of
        Inl e \<Rightarrow> Inl e
      | Inr pageNumber \<Rightarrow>
         (case (if length item_items > 0
                then promise_all (map (convertOutlineItemAsync doc) item_items)
                else Inr []) of
            Inl e \<Rightarrow> Inl e
          | Inr converted \<Rightarrow>
              Inr (PDFOutlineItem
                     (if item_title \<noteq> [] then item_title else utf16 ''Untitled'')
                     pageNumber converted item_dest)))"

text \<open>
  The same function, recording in a second component the nodes it is called on,
  starting from one call. \<open>map\<close> makes the calls on all the child nodes before
  \<open>Promise.all\<close> looks at any result.
\<close>

fun convertOutlineItemAsync_calls ::
  "pdfdoc \<Rightarrow> outline_node \<Rightarrow> (error + PDFOutlineItem) \<times> outline_node list" where
  "convertOutlineItemAsync_calls doc (OutlineNode item_title item_dest item_items) =
     (case (if truthy item_dest then resolveDestination doc item_dest else Inr 1) of
        Inl e \<Rightarrow> (Inl e, [OutlineNode item_title item_dest item_items])
      | Inr pageNumber \<Rightarrow>
         (let below = (if length item_items > 0
                       then map (convertOutlineItemAsync_calls doc) item_items
                       else [])
          in (case promise_all (map fst below) of
                Inl e \<Rightarrow> Inl e
              | Inr converted \<Rightarrow>
                  Inr (PDFOutlineItem
                         (if item_title \<noteq> [] then item_title else utf16 ''Untitled'')
                         pageNumber converted item_dest),
              OutlineNode item_title item_dest item_items # concat (map snd below))))"

text \<open>
  The host side of \<open>parsePDFOutline\<close>: loading the PDF library, reading the file and
  opening the document. The module variable \<open>pdfjsLib\<close> is passed in and returned.
\<close>

record tfile =
  path :: jsstring
  extension :: jsstring

record pdfjs =
  getDocument :: "8 word list \<Rightarrow> error + pdfdoc"

record host =
  loadPdfJs :: "error + pdfjs"
  readBinary :: "tfile \<Rightarrow> error + 8 word list"
  opensView :: bool
  workspaceError :: "error option"

definition parsePDFOutline ::
  "host \<Rightarrow> pdfjs option \<Rightarrow> tfile \<Rightarrow> (error + PDFOutlineItem list) \<times> pdfjs option" where
  "parsePDFOutline h pdfjsLib0 file =
     (case (case pdfjsLib0 of Some lib \<Rightarrow> Inr lib | None \<Rightarrow> loadPdfJs h) of
        Inl e \<Rightarrow> (Inl e, pdfjsLib0)
      | Inr lib \<Rightarrow>
         (case readBinary h file of
            Inl e \<Rightarrow> (Inl e, Some lib)
          | Inr arrayBuffer \<Rightarrow>
             (case getDocument lib arrayBuffer of
                Inl e \<Rightarrow> (Inl e, Some lib)
              | Inr doc \<Rightarrow>
                 (case getOutline doc of
                    Inl e \<Rightarrow> (Inl e, Some lib)
                  | Inr outline \<Rightarrow>
                     (case outline of
                        None \<Rightarrow> (Inr [], Some lib)
                      | Some nodes \<Rightarrow>
                         if length nodes = 0 then (Inr [], Some lib)
                         else (promise_all (map (convertOutlineItemAsync doc) nodes), Some lib))))))"


section \<open>The plugin (main.ts)\<close>

record plugin_state =
  view :: "view_state option"
  pdfjsLib :: "pdfjs option"

text \<open>
  \<open>activateView\<close> only calls the workspace. What the plugin sees of it: whether the
  workspace ran the registered view factory, which stores a new view in \<open>this.view\<close>,
  and whether one of the calls failed.
\<close>

definition activateView :: "host \<Rightarrow> plugin_state \<Rightarrow> error option \<times> plugin_state" where
  "activateView h st =
     (workspaceError h, if opensView h then st\<lparr>view := Some new_view\<rparr> else st)"

definition updateOutlineForFile ::
  "(jsstring \<Rightarrow> jsstring) \<Rightarrow> host \<Rightarrow> plugin_state \<Rightarrow> tfile \<Rightarrow> error option \<times> plugin_state" where
  "updateOutlineForFile toLowerCase h st file =
     (case (if view st = None then activateView h st else (None, st)) of
        (Some e, st1) \<Rightarrow> (Some e, st1)
      | (None, st1) \<Rightarrow>
         (case parsePDFOutline h (pdfjsLib st1) file of
            (Inr outline, lib) \<Rightarrow>
              (None, st1\<lparr>view := map_option (displayOutline toLowerCase outline) (view st1),
                          pdfjsLib := lib\<rparr>)
          | (Inl e, lib) \<Rightarrow>
              (None, st1\<lparr>view := map_option (displayOutline toLowerCase []) (view st1),
                          pdfjsLib := lib\<rparr>)))"

text \<open>The handler of the workspace event \<open>file-open\<close>.\<close>

definition onFileOpen ::
  "(jsstring \<Rightarrow> jsstring) \<Rightarrow> host \<Rightarrow> plugin_state \<Rightarrow> tfile option \<Rightarrow> error option \<times> plugin_state" where
  "onFileOpen toLowerCase h st file =
     (case file of
        None \<Rightarrow> (None, st\<lparr>view := map_option (displayOutline toLowerCase []) (view st)\<rparr>)
      | Some f \<Rightarrow>
         if extension f = utf16 ''pdf'' then updateOutlineForFile toLowerCase h st f
         else (None, st\<lparr>view := map_option (displayOutline toLowerCase []) (view st)\<rparr>))"

section \<open>Reference notions for the parser\<close>

text \<open>
  The array a destination stands for: the destination itself when it is an array,
  what \<open>getDestination\<close> resolves a name to when that is an array, and nothing in
  every other case, a failed lookup included.
\<close>

definition array_destination :: "pdfdoc \<Rightarrow> jsval \<Rightarrow> jsval list option" where
  "array_destination doc dest0 =
     (case dest0 of
        Arr elems \<Rightarrow> Some elems
      | Str name \<Rightarrow> (case getDestination doc name of Inr (Arr elems) \<Rightarrow> Some elems | _ \<Rightarrow> None)
      | _ \<Rightarrow> None)"

definition first_element :: "jsval list \<Rightarrow> jsval" where
  "first_element elems = (case elems of [] \<Rightarrow> Undefined | ref # rest \<Rightarrow> ref)"

text \<open>All nodes of an outline node, the node first, child nodes in order.\<close>

fun outline_nodes :: "outline_node \<Rightarrow> outline_node list" where
  "outline_nodes (OutlineNode t d its) = OutlineNode t d its # concat (map outline_nodes its)"

text \<open>The library's contract for \<open>getPageIndex\<close>: page indices start from zero.\<close>

definition page_indices_from_zero :: "pdfdoc \<Rightarrow> bool" where
  "page_indices_from_zero doc \<longleftrightarrow> (\<forall>ref i. getPageIndex doc ref = Inr i \<longrightarrow> 0 \<le> i)"

text \<open>The document \<open>parsePDFOutline\<close> gets to work on, if it gets that far.\<close>

definition opened_document :: "host \<Rightarrow> pdfjs option \<Rightarrow> tfile \<Rightarrow> pdfdoc option" where
  "opened_document h pdfjsLib0 file =
     (case (case pdfjsLib0 of Some lib \<Rightarrow> Inr lib | None \<Rightarrow> loadPdfJs h) of
        Inl e \<Rightarrow> None
      | Inr lib \<Rightarrow>
         (case readBinary h file of
            Inl e \<Rightarrow> None
          | Inr arrayBuffer \<Rightarrow>
             (case getDocument lib arrayBuffer of Inl e \<Rightarrow> None | Inr doc \<Rightarrow> Some doc)))"

text \<open>
  A document for concrete evaluations. Its outline is Intro, with the named
  destination ch1, over an untitled node with an explicit destination and the node
  Notes without destination; the name ch1 resolves to the fifth page, the explicit
  destination lies on the third.
\<close>

definition sample_doc :: pdfdoc where
  "sample_doc =
     \<lparr>getOutline =
        Inr (Some [OutlineNode (utf16 ''Intro'') (Str (utf16 ''ch1''))
                     [OutlineNode [] (Arr [Ref 7 0]) [],
                      OutlineNode (utf16 ''Notes'') Null []]]),
      getDestination =
        (\<lambda>name. if name = utf16 ''ch1'' then Inr (Arr [Ref 5 0]) else Inr Null),
      getPageIndex =
        (\<lambda>ref. case ref of
                  Ref n g \<Rightarrow> if n = 5 then Inr 4 else if n = 7 then Inr 2
                             else Inl (Error ''unknown reference'')
                | _ \<Rightarrow> Inl (Error ''not a reference''))\<rparr>"

definition sample_host :: host where
  "sample_host =
     \<lparr>loadPdfJs = Inr \<lparr>getDocument = (\<lambda>arrayBuffer. Inr sample_doc)\<rparr>,
      readBinary = (\<lambda>file. Inr []),
      opensView = True,
      workspaceError = None\<rparr>"

definition sample_file :: tfile where
  "sample_file = \<lparr>path = utf16 ''a.pdf'', extension = utf16 ''pdf''\<rparr>"


section \<open>Reference notions for page navigation\<close>

text \<open>
  The five ways of reaching a page, in the order in which they are to be tried, when
  each of them applies to a view in its leaf, and what applying it does.
\<close>

datatype strategy =
    ByGoToPage
  | ByJumpToPage
  | ByNavigateToPage
  | ByCurrentPageNumber
  | ByPageInput

definition strategies :: "strategy list" where
  "strategies = [ByGoToPage, ByJumpToPage, ByNavigateToPage, ByCurrentPageNumber, ByPageInput]"

text \<open>
  The page-number input is looked for in the view's container element, and in the
  leaf's only when the view has none.
\<close>

definition page_input :: "leaf \<Rightarrow> pdf_view \<Rightarrow> nat option" where
  "page_input l v =
     (case (case view_containerEl v of Some el \<Rightarrow> Some el | None \<Rightarrow> leaf_containerEl l) of
        None \<Rightarrow> None
      | Some el \<Rightarrow> numberInput el)"

fun applicable :: "leaf \<Rightarrow> pdf_view \<Rightarrow> strategy \<Rightarrow> bool" where
  "applicable l v ByGoToPage = goToPage v"
| "applicable l v ByJumpToPage = jumpToPage v"
| "applicable l v ByNavigateToPage = navigateToPage v"
| "applicable l v ByCurrentPageNumber =
     (case pdfViewer v of None \<Rightarrow> False | Some viewer \<Rightarrow> currentPageNumber viewer \<noteq> None)"
| "applicable l v ByPageInput = (page_input l v \<noteq> None)"

fun invoke :: "leaf \<Rightarrow> pdf_view \<Rightarrow> int \<Rightarrow> strategy \<Rightarrow> action list" where
  "invoke l v pageNumber ByGoToPage = [CallGoToPage pageNumber]"
| "invoke l v pageNumber ByJumpToPage = [CallJumpToPage pageNumber]"
| "invoke l v pageNumber ByNavigateToPage = [CallNavigateToPage pageNumber]"
| "invoke l v pageNumber ByCurrentPageNumber = [AssignCurrentPageNumber pageNumber]"
| "invoke l v pageNumber ByPageInput =
     (case page_input l v of None \<Rightarrow> [] | Some pageInput \<Rightarrow> [DriveInput pageInput pageNumber])"

text \<open>A view with nothing to navigate by, for concrete evaluations.\<close>

definition bare_view :: pdf_view where
  "bare_view =
     \<lparr>file_path = Some (utf16 ''a.pdf''), goToPage = False, jumpToPage = False,
      navigateToPage = False, pdfViewer = None, view_containerEl = None\<rparr>"

text \<open>A view that shows the one-item outline of an earlier document.\<close>

definition sample_view :: view_state where
  "sample_view =
     \<lparr>outlineItems = [PDFOutlineItem (utf16 ''Old'') 1 [] Null],
      searchQuery = [],
      outlineContainer = True,
      content = WithHeader (Tree [PDFOutlineItem (utf16 ''Old'') 1 [] Null])\<rparr>"


section \<open>Properties of the search filter\<close>

lemma foldl_push:
  "foldl (\<lambda>acc x. if P x then acc @ [f x] else acc) a xs = a @ map f (filter P xs)"
  by (induction xs arbitrary: a) auto

lemma filterOutline_blank:
  "trim q = [] \<Longrightarrow> filterOutline lc q items = items"
  by (subst filterOutline.simps) simp

lemma filterOutline_nonblank:
  "trim q \<noteq> [] \<Longrightarrow>
   filterOutline lc q items =
     map (\<lambda>item. PDFOutlineItem (title item) (page item)
                    (filterOutline lc q (children item)) (dest item))
         (filter (\<lambda>item. str_includes (lc (title item)) (lc q)
                          \<or> filterOutline lc q (children item) \<noteq> [])
                 items)"
  by (subst filterOutline.simps) (simp add: Let_def foldl_push)








lemma in_paths_iff:
  "chain \<in> set (paths items) \<longleftrightarrow>
     (\<exists>item \<in> set items. chain = [label item]
        \<or> (\<exists>rest. chain = label item # rest \<and> rest \<in> set (paths (children item))))"
proof -
  have "\<And>item. chain \<in> set (item_paths item) \<longleftrightarrow>
          chain = [label item]
          \<or> (\<exists>rest. chain = label item # rest \<and> rest \<in> set (paths (children item)))"
  proof -
    fix item show "chain \<in> set (item_paths item) \<longleftrightarrow>
          chain = [label item]
          \<or> (\<exists>rest. chain = label item # rest \<and> rest \<in> set (paths (children item)))"
      by (cases item) (auto simp: label_def paths_def)
  qed
  then show ?thesis by (simp add: paths_def)
qed

lemma paths_nonempty: "chain \<in> set (paths items) \<Longrightarrow> chain \<noteq> []"
  by (auto simp: in_paths_iff [of chain])

lemma paths_prefix_closed:
  "chain \<in> set (paths items) \<Longrightarrow> p \<noteq> [] \<Longrightarrow> prefix p chain \<Longrightarrow> p \<in> set (paths items)"
proof (induction chain arbitrary: items p)
  case Nil
  then show ?case by simp
next
  case (Cons l rest)
  from Cons.prems(1) obtain item where item: "item \<in> set items" "l = label item"
    and rest: "rest = [] \<or> rest \<in> set (paths (children item))"
    by (auto simp: in_paths_iff [of "l # rest"])
  from Cons.prems(2,3) obtain p' where p: "p = l # p'" "prefix p' rest"
    by (cases p) auto
  show ?case
  proof (cases "p' = []")
    case True
    then show ?thesis unfolding in_paths_iff [of p items] using item p by blast
  next
    case False
    with p(2) have "rest \<noteq> []" by auto
    with rest have "rest \<in> set (paths (children item))" by simp
    from Cons.IH [OF this False p(2)] show ?thesis
      unfolding in_paths_iff [of p items] using item p by blast
  qed
qed

lemma chain_survives_filter:
  "trim q \<noteq> [] \<Longrightarrow> chain \<in> set (paths items) \<Longrightarrow>
   str_includes (lc (fst (last chain))) (lc q) \<Longrightarrow>
   chain \<in> set (paths (filterOutline lc q items))"
proof (induction chain arbitrary: items)
  case Nil
  then show ?case using paths_nonempty by blast
next
  case (Cons l rest)
  let ?rebuild = "\<lambda>item. PDFOutlineItem (title item) (page item)
                    (filterOutline lc q (children item)) (dest item)"
  let ?P = "\<lambda>item. str_includes (lc (title item)) (lc q) \<or> filterOutline lc q (children item) \<noteq> []"
  have out: "filterOutline lc q items = map ?rebuild (filter ?P items)"
    by (rule filterOutline_nonblank [OF Cons.prems(1)])
  from Cons.prems(2) obtain item where item: "item \<in> set items" "l = label item"
    and rest: "rest = [] \<or> rest \<in> set (paths (children item))"
    by (auto simp: in_paths_iff [of "l # rest"])
  have lab: "label (?rebuild item) = label item" by (simp add: label_def)
  show ?case
  proof (cases "rest = []")
    case True
    with Cons.prems(3) item have "?P item" by (simp add: label_def)
    with item have "?rebuild item \<in> set (filterOutline lc q items)"
      unfolding out by simp
    then show ?thesis using True item lab
      unfolding in_paths_iff [of "l # rest"] by metis
  next
    case False
    with rest have r: "rest \<in> set (paths (children item))" by simp
    from False Cons.prems(3) have "str_includes (lc (fst (last rest))) (lc q)" by simp
    from Cons.IH [OF Cons.prems(1) r this]
    have sub: "rest \<in> set (paths (filterOutline lc q (children item)))" .
    then have "filterOutline lc q (children item) \<noteq> []" by (auto simp: paths_def)
    with item have mem: "?rebuild item \<in> set (filterOutline lc q items)"
      unfolding out by simp
    have "rest \<in> set (paths (children (?rebuild item)))" using sub by simp
    then show ?thesis using mem lab item
      unfolding in_paths_iff [of "l # rest"] by metis
  qed
qed


section \<open>Claims about the search filter\<close>



text \<open>
  C4. For every outline forest and every query, blank or not: if the forest has a
  chain from a top-level item down to an item whose title matches the query, then the
  filtered forest has the same chain, and with it every non-empty initial part of it.
  The matching item and each of its ancestors are in the output, each under its own
  parent.
\<close>

theorem filterOutline_preserves_parents:
  "chain \<in> set (paths items) \<Longrightarrow> str_includes (lc (fst (last chain))) (lc q) \<Longrightarrow>
   (\<forall>p. p \<noteq> [] \<and> prefix p chain \<longrightarrow> p \<in> set (paths (filterOutline lc q items)))"
proof (cases "trim q = []")
  case True
  assume "chain \<in> set (paths items)"
  then show ?thesis using True by (auto simp: filterOutline_blank intro: paths_prefix_closed)
next
  case False
  assume "chain \<in> set (paths items)" "str_includes (lc (fst (last chain))) (lc q)"
  then have "chain \<in> set (paths (filterOutline lc q items))"
    by (rule chain_survives_filter [OF False])
  then show ?thesis by (auto intro: paths_prefix_closed)
qed

text \<open>
  In the outline Intro over Basics over Bits, the query \<open>bit\<close> matches only the
  innermost title; the chain Intro, Basics, Bits and its two initial parts are chains
  of the filtered outline.
\<close>

theorem filterOutline_preserves_parents_witness:
  "[(utf16 ''Intro'', 1, Null), (utf16 ''Basics'', 2, Null), (utf16 ''Bits'', 3, Null)]
     \<in> set (paths [PDFOutlineItem (utf16 ''Intro'') 1
                     [PDFOutlineItem (utf16 ''Basics'') 2
                        [PDFOutlineItem (utf16 ''Bits'') 3 [] Null] Null,
                      PDFOutlineItem (utf16 ''Scope'') 4 [] Null] Null])
   \<and> str_includes (toLowerCase_ascii (utf16 ''Bits'')) (toLowerCase_ascii (utf16 ''bit''))
   \<and> [(utf16 ''Intro'', 1, Null)]
     \<in> set (paths (filterOutline toLowerCase_ascii (utf16 ''bit'')
                   [PDFOutlineItem (utf16 ''Intro'') 1
                     [PDFOutlineItem (utf16 ''Basics'') 2
                        [PDFOutlineItem (utf16 ''Bits'') 3 [] Null] Null,
                      PDFOutlineItem (utf16 ''Scope'') 4 [] Null] Null]))
   \<and> [(utf16 ''Intro'', 1, Null), (utf16 ''Basics'', 2, Null)]
     \<in> set (paths (filterOutline toLowerCase_ascii (utf16 ''bit'')
                   [PDFOutlineItem (utf16 ''Intro'') 1
                     [PDFOutlineItem (utf16 ''Basics'') 2
                        [PDFOutlineItem (utf16 ''Bits'') 3 [] Null] Null,
                      PDFOutlineItem (utf16 ''Scope'') 4 [] Null] Null]))
   \<and> [(utf16 ''Intro'', 1, Null), (utf16 ''Basics'', 2, Null), (utf16 ''Bits'', 3, Null)]
     \<in> set (paths (filterOutline toLowerCase_ascii (utf16 ''bit'')
                   [PDFOutlineItem (utf16 ''Intro'') 1
                     [PDFOutlineItem (utf16 ''Basics'') 2
                        [PDFOutlineItem (utf16 ''Bits'') 3 [] Null] Null,
                      PDFOutlineItem (utf16 ''Scope'') 4 [] Null] Null]))"
proof -
  let ?chain = "[(utf16 ''Intro'', 1::int, Null), (utf16 ''Basics'', 2, Null), (utf16 ''Bits'', 3, Null)]"
  let ?items = "[PDFOutlineItem (utf16 ''Intro'') 1
                     [PDFOutlineItem (utf16 ''Basics'') 2
                        [PDFOutlineItem (utf16 ''Bits'') 3 [] Null] Null,
                      PDFOutlineItem (utf16 ''Scope'') 4 [] Null] Null]"
  have a: "?chain \<in> set (paths ?items)"
    by (simp add: paths_def)
  have b: "str_includes (toLowerCase_ascii (fst (last ?chain))) (toLowerCase_ascii (utf16 ''bit''))"
    by (simp add: utf16_def toLowerCase_ascii_def)
  note c = filterOutline_preserves_parents [OF a b]
  have "[(utf16 ''Intro'', 1, Null)] \<in> set (paths (filterOutline toLowerCase_ascii (utf16 ''bit'') ?items))"
    using c by simp
  moreover have "[(utf16 ''Intro'', 1, Null), (utf16 ''Basics'', 2, Null)]
       \<in> set (paths (filterOutline toLowerCase_ascii (utf16 ''bit'') ?items))"
    using c by simp
  moreover have "?chain \<in> set (paths (filterOutline toLowerCase_ascii (utf16 ''bit'') ?items))"
    using c by simp
  ultimately show ?thesis using a b by simp
qed

lemma trim_empty_iff: "trim q = [] \<longleftrightarrow> list_all isWhiteSpace q"
proof -
  have "trim q = [] \<longleftrightarrow> (\<forall>c \<in> set (dropWhile isWhiteSpace q). isWhiteSpace c)"
    by (simp add: trim_def dropWhile_eq_Nil_conv)
  also have "\<dots> \<longleftrightarrow> dropWhile isWhiteSpace q = []"
  proof
    assume all: "\<forall>c \<in> set (dropWhile isWhiteSpace q). isWhiteSpace c"
    show "dropWhile isWhiteSpace q = []"
    proof (rule ccontr)
      assume ne: "dropWhile isWhiteSpace q \<noteq> []"
      then have "\<not> isWhiteSpace (hd (dropWhile isWhiteSpace q))"
        by (rule hd_dropWhile)
      moreover have "hd (dropWhile isWhiteSpace q) \<in> set (dropWhile isWhiteSpace q)"
        using ne by simp
      ultimately show False using all by blast
    qed
  next
    assume e: "dropWhile isWhiteSpace q = []"
    show "\<forall>c \<in> set (dropWhile isWhiteSpace q). isWhiteSpace c"
      unfolding e by simp
  qed
  also have "\<dots> \<longleftrightarrow> list_all isWhiteSpace q"
    by (simp add: dropWhile_eq_Nil_conv list_all_iff)
  finally show ?thesis .
qed

















text \<open>
  C8. For every outline forest and every lower-casing function: when every code unit
  of the search query is white space, which includes the empty query, \<open>filterOutline\<close>
  returns the list it was given.
\<close>

theorem filterOutline_blank_identity:
  "list_all isWhiteSpace q \<Longrightarrow> filterOutline lc q items = items"
  by (simp add: filterOutline_blank trim_empty_iff)

theorem filterOutline_blank_identity_witness:
  "list_all isWhiteSpace (utf16 ''  '') \<and>
   filterOutline toLowerCase_ascii (utf16 ''  '')
     [PDFOutlineItem (utf16 ''Intro'') 1 [PDFOutlineItem (utf16 ''Scope'') 2 [] Null] Null,
      PDFOutlineItem (utf16 ''End'') 3 [] Null]
   = [PDFOutlineItem (utf16 ''Intro'') 1 [PDFOutlineItem (utf16 ''Scope'') 2 [] Null] Null,
      PDFOutlineItem (utf16 ''End'') 3 [] Null]"
proof -
  have ws: "list_all isWhiteSpace (utf16 ''  '')"
    by (simp add: utf16_def isWhiteSpace_def)
  from filterOutline_blank_identity [OF ws] ws show ?thesis by simp
qed




section \<open>The parser and the two tree walks\<close>

lemma resolveDestination_returns: "\<exists>p. resolveDestination doc d = Inr p"
  by (simp add: resolveDestination_def split: sum.split option.split)

lemma promise_all_Inr: "promise_all ps = Inr vs \<longleftrightarrow> ps = map Inr vs"
proof (induction ps arbitrary: vs)
  case Nil
  then show ?case by auto
next
  case (Cons p ps)
  show ?case
  proof (cases p)
    case (Inl e)
    then show ?thesis by (cases vs) auto
  next
    case v: (Inr v)
    show ?thesis
    proof (cases "promise_all ps")
      case (Inl e)
      then have "\<And>vs'. ps \<noteq> map Inr vs'"
        using Cons.IH by (metis sum.distinct(1))
      then show ?thesis using v Inl by (cases vs) auto
    next
      case (Inr vs')
      then have "ps = map Inr vs'" using Cons.IH by simp
      then show ?thesis using v Inr by (cases vs) (auto simp: inj_map_eq_map)
    qed
  qed
qed

lemma convertOutlineItemAsync_returns: "\<exists>out. convertOutlineItemAsync doc n = Inr out"
proof (induction doc n rule: convertOutlineItemAsync.induct)
  case (1 doc t d its)
  have "\<exists>p. (if truthy d then resolveDestination doc d else Inr 1) = Inr p"
    using resolveDestination_returns [of doc d] by (cases "truthy d") auto
  then obtain p where p: "(if truthy d then resolveDestination doc d else Inr 1) = Inr p" ..
  have "\<forall>x \<in> set its. \<exists>out. convertOutlineItemAsync doc x = Inr out"
  proof
    fix x assume x: "x \<in> set its"
    then have "0 < length its" by (cases its) auto
    from 1 [OF p this x] show "\<exists>out. convertOutlineItemAsync doc x = Inr out" .
  qed
  then have "\<exists>cs. map (convertOutlineItemAsync doc) its = map Inr cs"
  proof (induction its)
    case Nil
    then show ?case by simp
  next
    case (Cons a its)
    then obtain cs out where "map (convertOutlineItemAsync doc) its = map Inr cs"
      "convertOutlineItemAsync doc a = Inr out" by auto
    then have "map (convertOutlineItemAsync doc) (a # its) = map Inr (out # cs)" by simp
    then show ?case by blast
  qed
  then obtain cs where "promise_all (map (convertOutlineItemAsync doc) its) = Inr cs"
    using promise_all_Inr by blast
  with p show ?case by simp
qed

lemma convertOutlineItemAsync_unfold:
  "convertOutlineItemAsync doc (OutlineNode t d its) = Inr out \<Longrightarrow>
   title out = (if t \<noteq> [] then t else utf16 ''Untitled'')
   \<and> Inr (page out) = (if truthy d then resolveDestination doc d else Inr 1)
   \<and> map Inr (children out) = map (convertOutlineItemAsync doc) its
   \<and> dest out = d"
proof -
  assume r: "convertOutlineItemAsync doc (OutlineNode t d its) = Inr out"
  have "\<exists>p. (if truthy d then resolveDestination doc d else Inr 1) = Inr p"
    using resolveDestination_returns [of doc d] by (cases "truthy d") auto
  then obtain p where p: "(if truthy d then resolveDestination doc d else Inr 1) = Inr p" ..
  show ?thesis
  proof (cases "its = []")
    case True
    with r p show ?thesis by auto
  next
    case False
    with r p obtain cs where cs: "promise_all (map (convertOutlineItemAsync doc) its) = Inr cs"
      and out: "out = PDFOutlineItem (if t \<noteq> [] then t else utf16 ''Untitled'') p cs d"
      by (auto split: sum.splits)
    from cs have "map (convertOutlineItemAsync doc) its = map Inr cs"
      by (simp add: promise_all_Inr)
    with out p show ?thesis by simp
  qed
qed

lemma Untitled_nonempty: "utf16 ''Untitled'' \<noteq> []"
  by (simp add: utf16_def)

lemma resolveDestination_positive:
  "page_indices_from_zero doc \<Longrightarrow> resolveDestination doc d = Inr p \<Longrightarrow> 1 \<le> p"
  unfolding page_indices_from_zero_def resolveDestination_def resolveDestination_try_def
  by (fastforce split: sum.splits option.splits jsval.splits)

lemma convertOutlineItemAsync_invariant:
  "page_indices_from_zero doc \<Longrightarrow> convertOutlineItemAsync doc n = Inr out \<Longrightarrow>
   \<forall>item \<in> set (out # descendants out). 1 \<le> page item \<and> title item \<noteq> []"
proof (induction n arbitrary: out)
  case (OutlineNode t d its)
  note u = convertOutlineItemAsync_unfold [OF OutlineNode.prems(2)]
  have pg: "1 \<le> page out"
    using u resolveDestination_positive [OF OutlineNode.prems(1), of d "page out"]
    by (auto split: if_splits)
  have ti: "title out \<noteq> []" using u Untitled_nonempty by auto
  have ch: "\<forall>c \<in> set (children out). \<forall>item \<in> set (c # descendants c). 1 \<le> page item \<and> title item \<noteq> []"
  proof
    fix c assume c: "c \<in> set (children out)"
    then have "Inr c \<in> set (map (convertOutlineItemAsync doc) its)"
      using u by (metis (no_types, lifting) image_eqI list.set_map)
    then obtain x where x: "x \<in> set its" "convertOutlineItemAsync doc x = Inr c" by auto
    from OutlineNode.IH [OF x(1) OutlineNode.prems(1) x(2)]
    show "\<forall>item \<in> set (c # descendants c). 1 \<le> page item \<and> title item \<noteq> []" .
  qed
  have "set (descendants out) = (\<Union>c \<in> set (children out). set (c # descendants c))"
    by (cases out) auto
  with pg ti ch show ?case by auto
qed


lemma foldl_push_visits:
  "foldl (\<lambda>acc x. (if P x then fst acc @ [f x] else fst acc, snd acc @ g x)) (a, b) xs
     = (a @ map f (filter P xs), b @ concat (map g xs))"
  by (induction xs arbitrary: a b) simp_all

lemma filterOutline_visits_blank:
  "trim q = [] \<Longrightarrow> filterOutline_visits lc q items = (items, [])"
  by (subst filterOutline_visits.simps) simp

lemma filterOutline_visits_nonblank:
  "trim q \<noteq> [] \<Longrightarrow>
   filterOutline_visits lc q items =
     (map (\<lambda>item. PDFOutlineItem (title item) (page item)
                     (fst (filterOutline_visits lc q (children item))) (dest item))
          (filter (\<lambda>item. str_includes (lc (title item)) (lc q)
                           \<or> fst (filterOutline_visits lc q (children item)) \<noteq> [])
                  items),
      concat (map (\<lambda>item. item # snd (filterOutline_visits lc q (children item))) items))"
  by (subst filterOutline_visits.simps) (simp add: Let_def foldl_push_visits)

lemma filterOutline_visits_fst:
  "fst (filterOutline_visits lc q items) = filterOutline lc q items"
proof (induction lc q items rule: filterOutline.induct)
  case (1 lc q items)
  show ?case
  proof (cases "trim q = []")
    case True
    then show ?thesis by (simp add: filterOutline_visits_blank filterOutline_blank)
  next
    case False
    have IH: "\<And>x. x \<in> set items \<Longrightarrow>
        fst (filterOutline_visits lc q (children x)) = filterOutline lc q (children x)"
      using 1 [OF False refl _ refl] by simp
    have P: "filter (\<lambda>item. str_includes (lc (title item)) (lc q)
                           \<or> fst (filterOutline_visits lc q (children item)) \<noteq> []) items
           = filter (\<lambda>item. str_includes (lc (title item)) (lc q)
                           \<or> filterOutline lc q (children item) \<noteq> []) items"
      using IH by (intro filter_cong refl) simp
    have "map (\<lambda>item. PDFOutlineItem (title item) (page item)
                     (fst (filterOutline_visits lc q (children item))) (dest item))
              (filter (\<lambda>item. str_includes (lc (title item)) (lc q)
                           \<or> filterOutline lc q (children item) \<noteq> []) items)
        = map (\<lambda>item. PDFOutlineItem (title item) (page item)
                     (filterOutline lc q (children item)) (dest item))
              (filter (\<lambda>item. str_includes (lc (title item)) (lc q)
                           \<or> filterOutline lc q (children item) \<noteq> []) items)"
      using IH by (intro map_cong refl) simp
    then show ?thesis
      using filterOutline_visits_nonblank [OF False, of lc items]
        filterOutline_nonblank [OF False, of lc items] P
      by simp
  qed
qed

lemma all_items_unfold:
  "all_items items = concat (map (\<lambda>item. item # all_items (children item)) items)"
proof -
  have "\<And>item. descendants item = all_items (children item)"
  proof -
    fix item show "descendants item = all_items (children item)"
      by (cases item) (simp add: all_items_def)
  qed
  note d = this
  have "all_items items = concat (map (\<lambda>item. item # descendants item) items)"
    by (simp only: all_items_def)
  also have "\<dots> = concat (map (\<lambda>item. item # all_items (children item)) items)"
    by (simp only: d)
  finally show ?thesis .
qed

lemma filterOutline_visits_snd:
  "trim q \<noteq> [] \<Longrightarrow> snd (filterOutline_visits lc q items) = all_items items"
proof (induction lc q items rule: filterOutline.induct)
  case (1 lc q items)
  have IH: "\<And>x. x \<in> set items \<Longrightarrow>
      snd (filterOutline_visits lc q (children x)) = all_items (children x)"
    using 1(1) [OF 1(2) refl _ refl] 1(2) by simp
  have "concat (map (\<lambda>item. item # snd (filterOutline_visits lc q (children item))) items)
      = concat (map (\<lambda>item. item # all_items (children item)) items)"
    using IH by (intro arg_cong [where f = concat] map_cong refl) simp
  then show ?case
    using filterOutline_visits_nonblank [OF 1(2), of lc items] all_items_unfold [of items]
    by simp
qed

lemma convertOutlineItemAsync_calls_fst:
  "fst (convertOutlineItemAsync_calls doc n) = convertOutlineItemAsync doc n"
proof (induction n)
  case (OutlineNode t d its)
  have "\<exists>p. (if truthy d then resolveDestination doc d else Inr 1) = Inr p"
    using resolveDestination_returns [of doc d] by (cases "truthy d") auto
  then obtain p where p: "(if truthy d then resolveDestination doc d else Inr 1) = Inr p" ..
  have h: "map (\<lambda>x. fst (convertOutlineItemAsync_calls doc x)) its = map (convertOutlineItemAsync doc) its"
    using OutlineNode by (intro map_cong refl) simp
  show ?case
    using p by (cases "its = []") (simp_all add: comp_def h)
qed

lemma convertOutlineItemAsync_calls_snd:
  "snd (convertOutlineItemAsync_calls doc n) = outline_nodes n"
proof (induction n)
  case (OutlineNode t d its)
  have "\<exists>p. (if truthy d then resolveDestination doc d else Inr 1) = Inr p"
    using resolveDestination_returns [of doc d] by (cases "truthy d") auto
  then obtain p where p: "(if truthy d then resolveDestination doc d else Inr 1) = Inr p" ..
  have h: "map (\<lambda>x. snd (convertOutlineItemAsync_calls doc x)) its = map outline_nodes its"
    using OutlineNode by (intro map_cong refl) simp
  show ?case
    using p by (cases "its = []") (simp_all add: comp_def h)
qed


text \<open>
  C2. For every document and every destination value, \<open>resolveDestination\<close> returns
  and does not throw. When the destination is or resolves to an array (the array
  destination) and \<open>getPageIndex\<close> gives a page index for its first element, the result
  is that index plus one. The result is 1 when that lookup throws, when
  \<open>getDestination\<close> throws, and when there is no array destination: the value is
  neither a name nor an array, or the name resolves to something else than an array.
\<close>

theorem resolveDestination_page:
  "resolveDestination doc dest0 =
     Inr (case array_destination doc dest0 of
            None \<Rightarrow> 1
          | Some elems \<Rightarrow>
              (case getPageIndex doc (first_element elems) of
                 Inl e \<Rightarrow> 1
               | Inr pageIndex \<Rightarrow> pageIndex + 1))"
proof (cases dest0)
  case (Arr elems)
  then show ?thesis
    by (simp add: resolveDestination_def resolveDestination_try_def array_destination_def
          first_element_def split: sum.split)
next
  case (Str name)
  show ?thesis
  proof (cases "getDestination doc name")
    case (Inl e)
    then show ?thesis using Str
      by (simp add: resolveDestination_def resolveDestination_try_def array_destination_def)
  next
    case (Inr resolved)
    then show ?thesis using Str
      by (cases resolved)
         (simp_all add: resolveDestination_def resolveDestination_try_def array_destination_def
            first_element_def split: sum.split)
  qed
qed (simp_all add: resolveDestination_def resolveDestination_try_def array_destination_def)

text \<open>
  On the sample document: a name that resolves to an array, an explicit array, a
  reference the document does not know, an array without elements, a name that
  resolves to \<open>null\<close>, and \<open>null\<close> itself.
\<close>

theorem resolveDestination_page_witness:
  "resolveDestination sample_doc (Str (utf16 ''ch1'')) = Inr 5
   \<and> resolveDestination sample_doc (Arr [Ref 7 0, Str (utf16 ''XYZ'')]) = Inr 3
   \<and> resolveDestination sample_doc (Arr [Ref 9 0]) = Inr 1
   \<and> resolveDestination sample_doc (Arr []) = Inr 1
   \<and> resolveDestination sample_doc (Str (utf16 ''ch2'')) = Inr 1
   \<and> resolveDestination sample_doc Null = Inr 1"
  using resolveDestination_page [of sample_doc "Str (utf16 ''ch1'')"]
    resolveDestination_page [of sample_doc "Arr [Ref 7 0, Str (utf16 ''XYZ'')]"]
    resolveDestination_page [of sample_doc "Arr [Ref 9 0]"]
    resolveDestination_page [of sample_doc "Arr []"]
    resolveDestination_page [of sample_doc "Str (utf16 ''ch2'')"]
    resolveDestination_page [of sample_doc Null]
  by (simp add: array_destination_def first_element_def sample_doc_def utf16_def)

text \<open>
  C5. For every document and every outline node of the library (a title string, a
  destination, a list of child nodes), \<open>convertOutlineItemAsync\<close> returns an item. Its
  title is the node's title when that is not the empty string and \<open>Untitled\<close>
  otherwise. Its page is what \<open>resolveDestination\<close> returns for the node's destination
  when the node has one, and 1 when it has none; the node has one when the value is
  truthy, as the source tests it, so that \<open>null\<close>, \<open>undefined\<close> and the empty name
  count as none. Its children are the conversions of the child nodes in the same
  order, and its destination is the node's.
\<close>

theorem convertOutlineItemAsync_item:
  "\<exists>out. convertOutlineItemAsync doc (OutlineNode t d its) = Inr out
     \<and> title out = (if t \<noteq> [] then t else utf16 ''Untitled'')
     \<and> Inr (page out) = (if truthy d then resolveDestination doc d else Inr 1)
     \<and> map Inr (children out) = map (convertOutlineItemAsync doc) its
     \<and> dest out = d"
proof -
  obtain out where out: "convertOutlineItemAsync doc (OutlineNode t d its) = Inr out"
    using convertOutlineItemAsync_returns by blast
  from convertOutlineItemAsync_unfold [OF out] out show ?thesis by blast
qed

theorem convertOutlineItemAsync_item_witness:
  "convertOutlineItemAsync sample_doc
     (OutlineNode (utf16 ''Intro'') (Str (utf16 ''ch1''))
        [OutlineNode [] (Arr [Ref 7 0]) [], OutlineNode (utf16 ''Notes'') Null []])
   = Inr (PDFOutlineItem (utf16 ''Intro'') 5
            [PDFOutlineItem (utf16 ''Untitled'') 3 [] (Arr [Ref 7 0]),
             PDFOutlineItem (utf16 ''Notes'') 1 [] Null]
            (Str (utf16 ''ch1'')))"
proof -
  let ?n = "OutlineNode (utf16 ''Intro'') (Str (utf16 ''ch1''))
        [OutlineNode [] (Arr [Ref 7 0]) [], OutlineNode (utf16 ''Notes'') Null []]"
  obtain out where out: "convertOutlineItemAsync sample_doc ?n = Inr out"
    and t: "title out = (if utf16 ''Intro'' \<noteq> [] then utf16 ''Intro'' else utf16 ''Untitled'')"
    and p: "Inr (page out) = (if truthy (Str (utf16 ''ch1''))
                              then resolveDestination sample_doc (Str (utf16 ''ch1'')) else Inr 1)"
    and c: "map Inr (children out) = map (convertOutlineItemAsync sample_doc)
              [OutlineNode [] (Arr [Ref 7 0]) [], OutlineNode (utf16 ''Notes'') Null []]"
    and d: "dest out = Str (utf16 ''ch1'')"
    using convertOutlineItemAsync_item [of sample_doc "utf16 ''Intro''" "Str (utf16 ''ch1'')"
        "[OutlineNode [] (Arr [Ref 7 0]) [], OutlineNode (utf16 ''Notes'') Null []]"]
    by blast
  have t': "title out = utf16 ''Intro''" using t by (simp add: utf16_def)
  have p': "page out = 5"
    using p by (simp add: resolveDestination_def resolveDestination_try_def sample_doc_def utf16_def)
  have c': "children out = [PDFOutlineItem (utf16 ''Untitled'') 3 [] (Arr [Ref 7 0]),
                 PDFOutlineItem (utf16 ''Notes'') 1 [] Null]"
    using c by (auto simp: resolveDestination_def resolveDestination_try_def sample_doc_def
                  utf16_def map_eq_Cons_conv)
  have "out = PDFOutlineItem (utf16 ''Intro'') 5
            [PDFOutlineItem (utf16 ''Untitled'') 3 [] (Arr [Ref 7 0]),
             PDFOutlineItem (utf16 ''Notes'') 1 [] Null]
            (Str (utf16 ''ch1''))"
    using t' p' c' d by (cases out) simp
  with out show ?thesis by simp
qed

lemma parsePDFOutline_opened:
  "opened_document h lib0 file = Some doc \<Longrightarrow>
   fst (parsePDFOutline h lib0 file) =
     (case getOutline doc of
        Inl e \<Rightarrow> Inl e
      | Inr None \<Rightarrow> Inr []
      | Inr (Some ns) \<Rightarrow>
          if length ns = 0 then Inr [] else promise_all (map (convertOutlineItemAsync doc) ns))"
  unfolding parsePDFOutline_def opened_document_def
  by (cases "case lib0 of Some lib \<Rightarrow> Inr lib | None \<Rightarrow> loadPdfJs h")
     (auto split: sum.splits option.splits)

lemma parsePDFOutline_not_opened:
  "opened_document h lib0 file = None \<Longrightarrow> \<exists>e. fst (parsePDFOutline h lib0 file) = Inl e"
  unfolding parsePDFOutline_def opened_document_def
  by (cases "case lib0 of Some lib \<Rightarrow> Inr lib | None \<Rightarrow> loadPdfJs h")
     (auto split: sum.splits option.splits)

text \<open>
  C9. Let \<open>getPageIndex\<close> of the document that \<open>parsePDFOutline\<close> opens return only
  page indices from zero on, as the PDF library has it. Then whenever
  \<open>parsePDFOutline\<close> returns an outline, every item of it, at any depth, has a page
  of at least 1 and a title that is not the empty string. And when the outline of the
  opened document is \<open>null\<close> or the empty array, \<open>parsePDFOutline\<close> returns the empty
  list.
\<close>

theorem parsePDFOutline_invariant:
  assumes contract: "\<forall>doc. opened_document h lib0 file = Some doc \<longrightarrow> page_indices_from_zero doc"
  shows "(\<forall>outline. fst (parsePDFOutline h lib0 file) = Inr outline \<longrightarrow>
            (\<forall>item \<in> set (all_items outline). 1 \<le> page item \<and> title item \<noteq> []))
       \<and> (\<forall>doc. opened_document h lib0 file = Some doc \<longrightarrow>
            (getOutline doc = Inr None \<or> getOutline doc = Inr (Some [])) \<longrightarrow>
            fst (parsePDFOutline h lib0 file) = Inr [])"
proof (intro conjI allI impI)
  fix outline
  assume ret: "fst (parsePDFOutline h lib0 file) = Inr outline"
  then obtain doc where doc: "opened_document h lib0 file = Some doc"
    using parsePDFOutline_not_opened [of h lib0 "file"] by (cases "opened_document h lib0 file") auto
  then have c: "page_indices_from_zero doc" using contract by simp
  show "\<forall>item \<in> set (all_items outline). 1 \<le> page item \<and> title item \<noteq> []"
  proof (cases "outline = []")
    case True
    then show ?thesis by (simp add: all_items_def)
  next
    case False
    with ret obtain ns where "promise_all (map (convertOutlineItemAsync doc) ns) = Inr outline"
      unfolding parsePDFOutline_opened [OF doc]
      by (auto split: sum.splits option.splits if_splits)
    then have m: "map (convertOutlineItemAsync doc) ns = map Inr outline"
      by (simp add: promise_all_Inr)
    have "\<forall>out \<in> set outline. \<forall>item \<in> set (out # descendants out). 1 \<le> page item \<and> title item \<noteq> []"
    proof
      fix out assume "out \<in> set outline"
      then have "Inr out \<in> set (map (convertOutlineItemAsync doc) ns)"
        unfolding m by simp
      then obtain n where "convertOutlineItemAsync doc n = Inr out" by auto
      from convertOutlineItemAsync_invariant [OF c this]
      show "\<forall>item \<in> set (out # descendants out). 1 \<le> page item \<and> title item \<noteq> []" .
    qed
    then show ?thesis by (auto simp: all_items_def)
  qed
next
  fix doc
  assume "opened_document h lib0 file = Some doc"
    and "getOutline doc = Inr None \<or> getOutline doc = Inr (Some [])"
  then show "fst (parsePDFOutline h lib0 file) = Inr []"
    by (auto simp: parsePDFOutline_opened)
qed

text \<open>
  The sample host opens the sample document, whose page indices are 4 and 2; its
  outline is converted to three items with the pages 5, 3 and 1. With the outline
  replaced by \<open>null\<close>, the result is the empty list.
\<close>

theorem parsePDFOutline_invariant_witness:
  "page_indices_from_zero sample_doc
   \<and> opened_document sample_host None sample_file = Some sample_doc
   \<and> fst (parsePDFOutline sample_host None sample_file)
       = Inr [PDFOutlineItem (utf16 ''Intro'') 5
                [PDFOutlineItem (utf16 ''Untitled'') 3 [] (Arr [Ref 7 0]),
                 PDFOutlineItem (utf16 ''Notes'') 1 [] Null]
                (Str (utf16 ''ch1''))]
   \<and> list_all (\<lambda>item. 1 \<le> page item \<and> title item \<noteq> [])
        (all_items [PDFOutlineItem (utf16 ''Intro'') 5
                [PDFOutlineItem (utf16 ''Untitled'') 3 [] (Arr [Ref 7 0]),
                 PDFOutlineItem (utf16 ''Notes'') 1 [] Null]
                (Str (utf16 ''ch1''))])
   \<and> fst (parsePDFOutline
            (sample_host\<lparr>loadPdfJs :=
               Inr \<lparr>getDocument = (\<lambda>arrayBuffer. Inr (sample_doc\<lparr>getOutline := Inr None\<rparr>))\<rparr>\<rparr>)
            None sample_file) = Inr []"
proof -
  have c: "page_indices_from_zero sample_doc"
    by (auto simp: page_indices_from_zero_def sample_doc_def split: jsval.splits if_splits)
  have o: "opened_document sample_host None sample_file = Some sample_doc"
    by (simp add: opened_document_def sample_host_def)
  have r: "fst (parsePDFOutline sample_host None sample_file)
       = Inr [PDFOutlineItem (utf16 ''Intro'') 5
                [PDFOutlineItem (utf16 ''Untitled'') 3 [] (Arr [Ref 7 0]),
                 PDFOutlineItem (utf16 ''Notes'') 1 [] Null]
                (Str (utf16 ''ch1''))]"
    by (simp add: parsePDFOutline_def sample_host_def)
       (simp add: sample_doc_def resolveDestination_def resolveDestination_try_def utf16_def)
  have "\<forall>doc. opened_document sample_host None sample_file = Some doc \<longrightarrow> page_indices_from_zero doc"
    using c o by simp
  from parsePDFOutline_invariant [OF this] r
  have "\<forall>item \<in> set (all_items [PDFOutlineItem (utf16 ''Intro'') 5
                [PDFOutlineItem (utf16 ''Untitled'') 3 [] (Arr [Ref 7 0]),
                 PDFOutlineItem (utf16 ''Notes'') 1 [] Null]
                (Str (utf16 ''ch1''))]). 1 \<le> page item \<and> title item \<noteq> []"
    by blast
  then have a: "list_all (\<lambda>item. 1 \<le> page item \<and> title item \<noteq> [])
        (all_items [PDFOutlineItem (utf16 ''Intro'') 5
                [PDFOutlineItem (utf16 ''Untitled'') 3 [] (Arr [Ref 7 0]),
                 PDFOutlineItem (utf16 ''Notes'') 1 [] Null]
                (Str (utf16 ''ch1''))])"
    by (simp only: list_all_iff)
  let ?h = "sample_host\<lparr>loadPdfJs :=
               Inr \<lparr>getDocument = (\<lambda>arrayBuffer. Inr (sample_doc\<lparr>getOutline := Inr None\<rparr>))\<rparr>\<rparr>"
  have o': "opened_document ?h None sample_file = Some (sample_doc\<lparr>getOutline := Inr None\<rparr>)"
    by (simp add: opened_document_def sample_host_def)
  have "\<forall>doc. opened_document ?h None sample_file = Some doc \<longrightarrow> page_indices_from_zero doc"
    using c o' by (simp add: page_indices_from_zero_def)
  from parsePDFOutline_invariant [OF this] o'
  have e: "fst (parsePDFOutline ?h None sample_file) = Inr []"
    by simp
  from c o r a e show ?thesis by blast
qed

text \<open>
  C7. Both walks are defined by recursion on the size of the tree, so both end on
  every finite outline. \<open>convertOutlineItemAsync\<close>, whose calls of the library are
  taken to return, returns an item and is called on every node of the outline node it
  is given, once each.
  The loop body of \<open>filterOutline\<close> runs on every item of the forest once, each item
  before its descendants and siblings in order, when the search query is not blank;
  when the query is blank the forest is returned at once and the loop body runs on no
  item.
\<close>

theorem walks_visit_each_node_once:
  "(\<exists>out. convertOutlineItemAsync doc n = Inr out)
   \<and> fst (convertOutlineItemAsync_calls doc n) = convertOutlineItemAsync doc n
   \<and> mset (snd (convertOutlineItemAsync_calls doc n)) = mset (outline_nodes n)
   \<and> fst (filterOutline_visits lc q items) = filterOutline lc q items
   \<and> (trim q \<noteq> [] \<longrightarrow> snd (filterOutline_visits lc q items) = all_items items)
   \<and> (trim q = [] \<longrightarrow> snd (filterOutline_visits lc q items) = [])"
  by (simp add: convertOutlineItemAsync_returns convertOutlineItemAsync_calls_fst
        convertOutlineItemAsync_calls_snd filterOutline_visits_fst filterOutline_visits_snd
        filterOutline_visits_blank)

theorem walks_visit_each_node_once_witness:
  "trim (utf16 ''b'') \<noteq> []
   \<and> snd (filterOutline_visits toLowerCase_ascii (utf16 ''b'')
        [PDFOutlineItem (utf16 ''Intro'') 1
           [PDFOutlineItem (utf16 ''Basics'') 2 [] Null,
            PDFOutlineItem (utf16 ''Scope'') 3 [] Null] Null,
         PDFOutlineItem (utf16 ''End'') 7 [] Null])
     = [PDFOutlineItem (utf16 ''Intro'') 1
           [PDFOutlineItem (utf16 ''Basics'') 2 [] Null,
            PDFOutlineItem (utf16 ''Scope'') 3 [] Null] Null,
        PDFOutlineItem (utf16 ''Basics'') 2 [] Null,
        PDFOutlineItem (utf16 ''Scope'') 3 [] Null,
        PDFOutlineItem (utf16 ''End'') 7 [] Null]
   \<and> trim (utf16 '' '') = []
   \<and> snd (filterOutline_visits toLowerCase_ascii (utf16 '' '')
        [PDFOutlineItem (utf16 ''Intro'') 1
           [PDFOutlineItem (utf16 ''Basics'') 2 [] Null,
            PDFOutlineItem (utf16 ''Scope'') 3 [] Null] Null,
         PDFOutlineItem (utf16 ''End'') 7 [] Null])
     = []"
proof -
  let ?items = "[PDFOutlineItem (utf16 ''Intro'') 1
           [PDFOutlineItem (utf16 ''Basics'') 2 [] Null,
            PDFOutlineItem (utf16 ''Scope'') 3 [] Null] Null,
         PDFOutlineItem (utf16 ''End'') 7 [] Null]"
  have nb: "trim (utf16 ''b'') \<noteq> []"
    by (simp add: utf16_def trim_def isWhiteSpace_def)
  have bl: "trim (utf16 '' '') = []"
    by (simp add: utf16_def trim_def isWhiteSpace_def)
  have "snd (filterOutline_visits toLowerCase_ascii (utf16 ''b'') ?items) = all_items ?items"
    using walks_visit_each_node_once [of sample_doc "OutlineNode [] Null []" toLowerCase_ascii
        "utf16 ''b''" ?items] nb
    by blast
  then have v: "snd (filterOutline_visits toLowerCase_ascii (utf16 ''b'') ?items)
     = [PDFOutlineItem (utf16 ''Intro'') 1
           [PDFOutlineItem (utf16 ''Basics'') 2 [] Null,
            PDFOutlineItem (utf16 ''Scope'') 3 [] Null] Null,
        PDFOutlineItem (utf16 ''Basics'') 2 [] Null,
        PDFOutlineItem (utf16 ''Scope'') 3 [] Null,
        PDFOutlineItem (utf16 ''End'') 7 [] Null]"
    by (simp add: all_items_def)
  have w: "snd (filterOutline_visits toLowerCase_ascii (utf16 '' '') ?items) = []"
    using walks_visit_each_node_once [of sample_doc "OutlineNode [] Null []" toLowerCase_ascii
        "utf16 '' ''" ?items] bl
    by blast
  from nb v bl w show ?thesis by blast
qed

text \<open>
  The claim as it stands, for every query, fails on the empty query: the filter
  returns without running its loop body on the one item of the forest.
\<close>

theorem filterOutline_visits_counterexample:
  "snd (filterOutline_visits toLowerCase_ascii []
          [PDFOutlineItem (utf16 ''Intro'') 1 [] Null])
   \<noteq> all_items [PDFOutlineItem (utf16 ''Intro'') 1 [] Null]"
  by (simp add: filterOutline_visits_blank trim_def all_items_def)

section \<open>Page navigation and the file-open handler\<close>

lemma navigateToPageInLeaf_without_view:
  "target_leaf pdfLeaves p leafArg = None
     \<or> (\<exists>l. target_leaf pdfLeaves p leafArg = Some l \<and> leaf_view l = None) \<Longrightarrow>
   navigateToPageInLeaf pdfLeaves pageNumber p leafArg = []"
  by (auto simp: navigateToPageInLeaf_def)

lemma navigateToPageInLeaf_first_applicable:
  "target_leaf pdfLeaves p leafArg = Some l \<Longrightarrow> leaf_view l = Some v \<Longrightarrow>
   navigateToPageInLeaf pdfLeaves pageNumber p leafArg =
     (case find (applicable l v) strategies of
        Some s \<Rightarrow> invoke l v pageNumber s
      | None \<Rightarrow> [Warn pageNumber p])"
  by (simp add: navigateToPageInLeaf_def strategies_def page_input_def Let_def
        split: option.split)

lemma displayOutline_empty:
  "outlineItems (displayOutline lc [] v) = [] \<and> content (displayOutline lc [] v) = NoOutlineMessage"
  by (simp add: displayOutline_def)

text \<open>
  C3. For every page number, file path and list of PDF leaves, and for every leaf
  with a PDF view that the call works on (the leaf passed in, or the one looked up):
  \<open>navigateToPageInLeaf\<close> does exactly what the first applicable of the five
  strategies does, in the order \<open>goToPage\<close>, \<open>jumpToPage\<close>, \<open>navigateToPage\<close>, assignment
  to \<open>currentPageNumber\<close> of the internal viewer, page-number input element; it does
  one thing only; and it logs the warning if and only if none of the five is
  applicable. Without a leaf or without a view the call returns before the first
  strategy and logs nothing.
\<close>

theorem navigateToPageInLeaf_strategies:
  assumes "target_leaf pdfLeaves p leafArg = Some l" and "leaf_view l = Some v"
  shows "navigateToPageInLeaf pdfLeaves pageNumber p leafArg =
           (case find (applicable l v) strategies of
              Some s \<Rightarrow> invoke l v pageNumber s
            | None \<Rightarrow> [Warn pageNumber p])
       \<and> length (navigateToPageInLeaf pdfLeaves pageNumber p leafArg) = 1
       \<and> (Warn pageNumber p \<in> set (navigateToPageInLeaf pdfLeaves pageNumber p leafArg))
           = (\<not> list_ex (applicable l v) strategies)"
proof -
  note eq = navigateToPageInLeaf_first_applicable [OF assms, of pageNumber]
  show ?thesis
  proof (cases "find (applicable l v) strategies")
    case None
    then have "\<not> list_ex (applicable l v) strategies"
      by (simp add: find_None_iff list_ex_iff)
    with None eq show ?thesis by simp
  next
    case (Some s)
    then have s: "applicable l v s" "s \<in> set strategies"
      by (auto simp: find_Some_iff)
    then have ex: "list_ex (applicable l v) strategies"
      by (auto simp: list_ex_iff)
    have "length (invoke l v pageNumber s) = 1 \<and> Warn pageNumber p \<notin> set (invoke l v pageNumber s)"
      using s(1) by (cases s) auto
    with Some eq ex show ?thesis by simp
  qed
qed

text \<open>
  A leaf passed in whose view has \<open>jumpToPage\<close> and \<open>navigateToPage\<close> and an internal
  viewer with a current page number: only \<open>jumpToPage\<close> is called. The same leaf with
  the bare view, and no container element anywhere: the warning.
\<close>

theorem navigateToPageInLeaf_strategies_witness:
  "navigateToPageInLeaf []  5 (utf16 ''a.pdf'')
     (Some \<lparr>leaf_view = Some (bare_view\<lparr>jumpToPage := True, navigateToPage := True,
                                         pdfViewer := Some \<lparr>currentPageNumber = Some 1\<rparr>\<rparr>),
            leaf_containerEl = Some \<lparr>numberInput = Some 0\<rparr>\<rparr>)
     = [CallJumpToPage 5]
   \<and> navigateToPageInLeaf
        [\<lparr>leaf_view = Some (bare_view\<lparr>view_containerEl := Some \<lparr>numberInput = None\<rparr>\<rparr>),
          leaf_containerEl = Some \<lparr>numberInput = Some 0\<rparr>\<rparr>]
        5 (utf16 ''a.pdf'') None
     = [Warn 5 (utf16 ''a.pdf'')]"
proof -
  let ?v1 = "bare_view\<lparr>jumpToPage := True, navigateToPage := True,
                         pdfViewer := Some \<lparr>currentPageNumber = Some 1\<rparr>\<rparr>"
  let ?l1 = "\<lparr>leaf_view = Some ?v1, leaf_containerEl = Some \<lparr>numberInput = Some 0\<rparr>\<rparr>"
  let ?v2 = "bare_view\<lparr>view_containerEl := Some \<lparr>numberInput = None\<rparr>\<rparr>"
  let ?l2 = "\<lparr>leaf_view = Some ?v2, leaf_containerEl = Some \<lparr>numberInput = Some 0\<rparr>\<rparr>"
  have t1: "target_leaf [] (utf16 ''a.pdf'') (Some ?l1) = Some ?l1"
    by (simp add: target_leaf_def)
  have t2: "target_leaf [?l2] (utf16 ''a.pdf'') None = Some ?l2"
    by (simp add: target_leaf_def leaf_shows_def bare_view_def)
  have a: "navigateToPageInLeaf [] 5 (utf16 ''a.pdf'') (Some ?l1) = [CallJumpToPage 5]"
    using navigateToPageInLeaf_strategies [OF t1, of ?v1 5]
    by (simp add: strategies_def bare_view_def)
  have b: "navigateToPageInLeaf [?l2] 5 (utf16 ''a.pdf'') None = [Warn 5 (utf16 ''a.pdf'')]"
    using navigateToPageInLeaf_strategies [OF t2, of ?v2 5]
    by (simp add: strategies_def bare_view_def page_input_def)
  from a b show ?thesis by simp
qed

text \<open>
  C10. When the \<open>file-open\<close> event delivers no file or a file whose extension is not
  \<open>pdf\<close>, and when it delivers a PDF file and \<open>parsePDFOutline\<close> throws, the handler
  calls \<open>displayOutline\<close> with the empty list on the view, if the plugin holds one.
  After that call the view holds the empty outline and shows the message for it:
  nothing of the previous outline is kept. If the plugin holds no view, there is none
  to update.
\<close>

theorem onFileOpen_clears_outline:
  "(file = None \<or> (\<exists>f. file = Some f \<and> extension f \<noteq> utf16 ''pdf'') \<longrightarrow>
      onFileOpen lc h st file
        = (None, st\<lparr>view := map_option (displayOutline lc []) (view st)\<rparr>))
   \<and> (\<forall>f st1 e lib.
        file = Some f \<and> extension f = utf16 ''pdf''
        \<and> (if view st = None then activateView h st else (None, st)) = (None, st1)
        \<and> parsePDFOutline h (pdfjsLib st1) f = (Inl e, lib) \<longrightarrow>
        onFileOpen lc h st file
          = (None, st1\<lparr>view := map_option (displayOutline lc []) (view st1), pdfjsLib := lib\<rparr>))
   \<and> outlineItems (displayOutline lc [] v) = []
   \<and> content (displayOutline lc [] v) = NoOutlineMessage"
proof (intro conjI allI impI)
  assume "file = None \<or> (\<exists>f. file = Some f \<and> extension f \<noteq> utf16 ''pdf'')"
  then show "onFileOpen lc h st file
        = (None, st\<lparr>view := map_option (displayOutline lc []) (view st)\<rparr>)"
    by (auto simp: onFileOpen_def)
next
  fix f st1 e lib
  assume a: "file = Some f \<and> extension f = utf16 ''pdf''
        \<and> (if view st = None then activateView h st else (None, st)) = (None, st1)
        \<and> parsePDFOutline h (pdfjsLib st1) f = (Inl e, lib)"
  then have "updateOutlineForFile lc h st f
      = (None, st1\<lparr>view := map_option (displayOutline lc []) (view st1), pdfjsLib := lib\<rparr>)"
    by (simp add: updateOutlineForFile_def)
  with a show "onFileOpen lc h st file
          = (None, st1\<lparr>view := map_option (displayOutline lc []) (view st1), pdfjsLib := lib\<rparr>)"
    by (simp add: onFileOpen_def)
qed (simp_all add: displayOutline_empty)


text \<open>
  The plugin holds the sample view. No file, and a file with the extension \<open>md\<close>:
  the view is cleared. A PDF file on a host where reading the file fails: the library
  is loaded, the read throws, and the view is cleared.
\<close>

theorem onFileOpen_clears_outline_witness:
  "onFileOpen toLowerCase_ascii sample_host \<lparr>view = Some sample_view, pdfjsLib = None\<rparr> None
     = (None, \<lparr>view = Some (sample_view\<lparr>outlineItems := [], content := NoOutlineMessage\<rparr>),
               pdfjsLib = None\<rparr>)
   \<and> onFileOpen toLowerCase_ascii sample_host \<lparr>view = Some sample_view, pdfjsLib = None\<rparr>
        (Some \<lparr>path = utf16 ''a.md'', extension = utf16 ''md''\<rparr>)
     = (None, \<lparr>view = Some (sample_view\<lparr>outlineItems := [], content := NoOutlineMessage\<rparr>),
               pdfjsLib = None\<rparr>)
   \<and> onFileOpen toLowerCase_ascii
        (sample_host\<lparr>readBinary := (\<lambda>f. Inl (Error ''read failed''))\<rparr>)
        \<lparr>view = Some sample_view, pdfjsLib = None\<rparr> (Some sample_file)
     = (None, \<lparr>view = Some (sample_view\<lparr>outlineItems := [], content := NoOutlineMessage\<rparr>),
               pdfjsLib = Some \<lparr>getDocument = (\<lambda>arrayBuffer. Inr sample_doc)\<rparr>\<rparr>)"
proof -
  let ?st = "\<lparr>view = Some sample_view, pdfjsLib = None\<rparr>"
  let ?h = "sample_host\<lparr>readBinary := (\<lambda>f. Inl (Error ''read failed''))\<rparr>"
  let ?lib = "\<lparr>getDocument = (\<lambda>arrayBuffer. Inr sample_doc)\<rparr>"
  have d: "displayOutline toLowerCase_ascii [] sample_view
         = sample_view\<lparr>outlineItems := [], content := NoOutlineMessage\<rparr>"
    by (simp add: displayOutline_def)
  have a: "onFileOpen toLowerCase_ascii sample_host ?st None
     = (None, \<lparr>view = Some (sample_view\<lparr>outlineItems := [], content := NoOutlineMessage\<rparr>),
               pdfjsLib = None\<rparr>)"
    using onFileOpen_clears_outline [of None toLowerCase_ascii sample_host ?st] d by simp
  have md: "utf16 ''md'' \<noteq> utf16 ''pdf''" by (simp add: utf16_def)
  have b: "onFileOpen toLowerCase_ascii sample_host ?st
        (Some \<lparr>path = utf16 ''a.md'', extension = utf16 ''md''\<rparr>)
     = (None, \<lparr>view = Some (sample_view\<lparr>outlineItems := [], content := NoOutlineMessage\<rparr>),
               pdfjsLib = None\<rparr>)"
    using onFileOpen_clears_outline [of "Some \<lparr>path = utf16 ''a.md'', extension = utf16 ''md''\<rparr>"
        toLowerCase_ascii sample_host ?st] d md
    by simp
  have p: "parsePDFOutline ?h None sample_file = (Inl (Error ''read failed''), Some ?lib)"
    by (simp add: parsePDFOutline_def sample_host_def)
  have "(\<forall>f st1 e lib.
        Some sample_file = Some f \<and> extension f = utf16 ''pdf''
        \<and> (if view ?st = None then activateView ?h ?st else (None, ?st)) = (None, st1)
        \<and> parsePDFOutline ?h (pdfjsLib st1) f = (Inl e, lib) \<longrightarrow>
        onFileOpen toLowerCase_ascii ?h ?st (Some sample_file)
          = (None, st1\<lparr>view := map_option (displayOutline toLowerCase_ascii []) (view st1),
                        pdfjsLib := lib\<rparr>))"
    using onFileOpen_clears_outline [of "Some sample_file" toLowerCase_ascii ?h ?st] by blast
  then have "onFileOpen toLowerCase_ascii ?h ?st (Some sample_file)
          = (None, ?st\<lparr>view := map_option (displayOutline toLowerCase_ascii []) (view ?st),
                        pdfjsLib := Some ?lib\<rparr>)"
    using p by (simp add: sample_file_def)
  then have c: "onFileOpen toLowerCase_ascii ?h ?st (Some sample_file)
     = (None, \<lparr>view = Some (sample_view\<lparr>outlineItems := [], content := NoOutlineMessage\<rparr>),
               pdfjsLib = Some ?lib\<rparr>)"
    using d by simp
  from a b c show ?thesis by simp
qed

end
